theory Spec2Isabelle
  imports Main "HOL-Library.Word"
begin

unbundle bit_operations_syntax

section \<open>JavaScript values\<close>

text \<open>
  The module is dynamically typed. The values that reach its truthiness tests, its
  property reads and its strict comparison are modelled by one datatype. Numbers are
  the integral ones (a drift offset is a difference of two counters); an object is the
  list of its own properties.
\<close>

datatype jsval =
    JUndefined
  | JNull
  | JBool bool
  | JNum int
  | JStr string
  | JObj "(string \<times> jsval) list"

datatype error = TypeError | InvalidSecretError | InvalidEncodingError | UnrecognizedSchemeError

text \<open>ToBoolean: what \<open>if (v)\<close>, \<open>v || d\<close>, \<open>v && w\<close> and \<open>v ? a : b\<close> test.\<close>

fun truthy :: "jsval \<Rightarrow> bool" where
  "truthy JUndefined = False"
| "truthy JNull = False"
| "truthy (JBool b) = b"
| "truthy (JNum n) = (n \<noteq> 0)"
| "truthy (JStr s) = (s \<noteq> [])"
| "truthy (JObj fs) = True"

text \<open>
  \<open>v.k\<close>: reading a property of \<open>undefined\<close> or \<open>null\<close> raises a TypeError, an
  object yields the property or \<open>undefined\<close>, a primitive has no own property of the
  names read here.
\<close>

fun get_prop :: "jsval \<Rightarrow> string \<Rightarrow> error + jsval" where
  "get_prop JUndefined k = Inl TypeError"
| "get_prop JNull k = Inl TypeError"
| "get_prop (JObj fs) k = Inr (case map_of fs k of None \<Rightarrow> JUndefined | Some v \<Rightarrow> v)"
| "get_prop (JBool b) k = Inr JUndefined"
| "get_prop (JNum n) k = Inr JUndefined"
| "get_prop (JStr s) k = Inr JUndefined"

text \<open>\<open>v === n\<close> for a number literal \<open>n\<close>: no coercion, so only the number itself is equal.\<close>

definition strict_eq_num :: "jsval \<Rightarrow> int \<Rightarrow> jsval" where
  "strict_eq_num v n = JBool (v = JNum n)"

text \<open>\<open>s || d\<close> on an optional string: the empty string is falsy, as a missing one is.\<close>

definition or_default :: "string option \<Rightarrow> string \<Rightarrow> string" where
  "or_default s d = (case s of None \<Rightarrow> d | Some v \<Rightarrow> if v = [] then d else v)"

section \<open>restrict\<close>

text \<open>
  The configuration object: \<open>loginRoute\<close> is an optional string, \<open>rest\<close> is tested
  for truthiness only, \<open>db\<close> is the connection descriptor read by \<open>getDatabase\<close>.
\<close>

datatype db_descr = DbString string | DbObject "string option"

record config =
  loginRoute :: "string option"
  rest :: jsval
  db :: "db_descr option"

definition empty_config :: config where
  "empty_config = \<lparr> loginRoute = None, rest = JUndefined, db = None \<rparr>"

text \<open>
  The request: \<open>session\<close> is absent when no session middleware ran and \<open>null\<close> after
  a cookie session was cleared (both \<open>None\<close>); \<open>sessionStore\<close> is the backing store
  of the session middleware, the stored sessions by id, absent with cookie sessions.
\<close>

record session =
  loggedIn :: jsval
  sid :: nat

record request =
  session :: "session option"
  sessionStore :: "(nat \<times> session) list option"
  url :: string

text \<open>What the guard does with the response: exactly one of the three calls.\<close>

datatype action = Next | Send int | Redirect string

text \<open>
  \<open>exports.restrict\<close>: the first argument is the optional configuration, the second
  is the request the returned middleware receives. Reading \<open>req.session.loggedIn\<close>
  without a session raises.
\<close>

definition restrict :: "config option \<Rightarrow> request \<Rightarrow> error + action" where
  "restrict config req =
     (let config = (case config of None \<Rightarrow> empty_config | Some c \<Rightarrow> c);
          route = or_default (loginRoute config) ''/login''
      in case session req of
           None \<Rightarrow> Inl TypeError
         | Some s \<Rightarrow>
             if truthy (loggedIn s) then Inr Next
             else if truthy (rest config) then Inr (Send 401)
             else Inr (Redirect (route @ ''?redirect='' @ url req)))"

section \<open>getDatabase\<close>

text \<open>
  \<open>config.db.url || config.db\<close>: a string has no \<open>url\<close> property and is the URI
  itself; an object gives its \<open>url\<close> when that is a non-empty string, and otherwise
  the object itself, which \<open>url.parse\<close> rejects with a TypeError, as it does every
  argument that is not a string. A missing \<open>config.db\<close> raises at the property read.
\<close>

definition db_uri :: "config \<Rightarrow> error + string" where
  "db_uri config =
     (case db config of
        None \<Rightarrow> Inl TypeError
      | Some (DbString s) \<Rightarrow> Inr s
      | Some (DbObject None) \<Rightarrow> Inl TypeError
      | Some (DbObject (Some u)) \<Rightarrow> if u = [] then Inl TypeError else Inr u)"

text \<open>
  The \<open>switch\<close> on the protocol. It has no \<open>default\<close> branch: \<open>res\<close> stays the
  empty object for every other protocol and for a URI without one (\<open>null\<close>).
\<close>

definition db_switch :: "string option \<Rightarrow> jsval" where
  "db_switch prot =
     (if prot = Some ''http:'' \<or> prot = Some ''https:''
        then JObj [(''type'', JStr ''couchdb''), (''adapter'', JStr ''lockit-couchdb-adapter'')]
      else if prot = Some ''mongodb:''
        then JObj [(''type'', JStr ''mongodb''), (''adapter'', JStr ''lockit-mongodb-adapter'')]
      else if prot = Some ''postgres:''
        then JObj [(''type'', JStr ''postgresql''), (''adapter'', JStr ''lockit-sql-adapter'')]
      else if prot = Some ''mysql:''
        then JObj [(''type'', JStr ''mysql''), (''adapter'', JStr ''lockit-sql-adapter'')]
      else if prot = Some ''sqlite:''
        then JObj [(''type'', JStr ''sqlite''), (''adapter'', JStr ''lockit-sql-adapter'')]
      else JObj [])"

text \<open>
  \<open>exports.getDatabase\<close>. Its first argument stands for \<open>url.parse(uri).protocol\<close>
  of Node's standard library: the protocol of a URI string, or \<open>null\<close>.
\<close>

definition getDatabase :: "(string \<Rightarrow> string option) \<Rightarrow> config \<Rightarrow> error + jsval" where
  "getDatabase protocol config =
     (case db_uri config of
        Inl e \<Rightarrow> Inl e
      | Inr uri \<Rightarrow> Inr (db_switch (protocol uri)))"

text \<open>
  Modelled from the spec: \<open>url.parse\<close> is not under src/. The resolver matches "the
  URI scheme": the leading run of scheme characters (letters, digits, \<open>+\<close>, \<open>-\<close>,
  \<open>.\<close>) when it is not empty and a colon follows, in lower case and with the colon.
\<close>

definition scheme_char :: "char \<Rightarrow> bool" where
  "scheme_char c =
     (c \<in> set ''abcdefghijklmnopqrstuvwxyzABCDEFGHIJKLMNOPQRSTUVWXYZ0123456789+-.'')"

definition lower_char :: "char \<Rightarrow> char" where
  "lower_char c =
     (if (65::nat) \<le> of_char c \<and> of_char c \<le> (90::nat)
      then char_of (of_char c + (32::nat)) else c)"

definition url_protocol :: "string \<Rightarrow> string option" where
  "url_protocol uri =
     (let scheme = takeWhile scheme_char uri; rest = dropWhile scheme_char uri
      in if scheme \<noteq> [] \<and> rest \<noteq> [] \<and> hd rest = CHR '':''
         then Some (map lower_char scheme @ '':'')
         else None)"

section \<open>verify\<close>

text \<open>
  The options object handed on to \<open>totp.verify\<close> of the notp package. That function is
  a dependency: \<open>verify\<close> takes it as its first argument here. It may raise, and it
  returns any value.
\<close>

record options =
  window :: "nat option"
  time :: "nat option"

definition empty_options :: options where
  "empty_options = \<lparr> window = None, time = None \<rparr>"

type_synonym totp_verify = "string \<Rightarrow> string \<Rightarrow> options \<Rightarrow> error + jsval"

text \<open>\<open>(verified && verified.delta === 0) ? true : false\<close>\<close>

definition valid_delta :: "jsval \<Rightarrow> error + jsval" where
  "valid_delta verified =
     (if truthy verified
      then (case get_prop verified ''delta'' of
              Inl e \<Rightarrow> Inl e
            | Inr d \<Rightarrow> Inr (JBool (truthy (strict_eq_num d 0))))
      else Inr (JBool (truthy verified)))"

definition verify :: "totp_verify \<Rightarrow> string \<Rightarrow> string \<Rightarrow> options option \<Rightarrow> error + jsval" where
  "verify totp_verify token key opts =
     (let opts = (case opts of None \<Rightarrow> empty_options | Some x \<Rightarrow> x)
      in case totp_verify token key opts of
           Inl e \<Rightarrow> Inl e
         | Inr verified \<Rightarrow> valid_delta verified)"

section \<open>qr\<close>

record qr_config =
  key :: string
  email :: string
  issuer :: "string option"

text \<open>
  \<open>encodeURIComponent\<close> on a string held as its UTF-8 bytes: the unreserved
  characters stay, every other byte becomes \<open>%\<close> and two upper-case hex digits.
\<close>

definition uri_unreserved :: "char \<Rightarrow> bool" where
  "uri_unreserved c =
     (c \<in> set (''abcdefghijklmnopqrstuvwxyzABCDEFGHIJKLMNOPQRSTUVWXYZ0123456789-_.!~*()''
              @ [CHR 0x27]))"

definition hex_digit :: "nat \<Rightarrow> char" where
  "hex_digit n = ''0123456789ABCDEF'' ! (n mod 16)"

definition percent_encode :: "char \<Rightarrow> string" where
  "percent_encode c =
     (if uri_unreserved c then [c]
      else [CHR ''%'', hex_digit (of_char c div 16), hex_digit (of_char c mod 16)])"

definition encodeURIComponent :: "string \<Rightarrow> string" where
  "encodeURIComponent s = concat (map percent_encode s)"

text \<open>
  \<open>exports.qr\<close>. Its first argument stands for \<open>base32.encode\<close> of the thirty-two
  package, read as text.
\<close>

definition qr :: "(string \<Rightarrow> string) \<Rightarrow> qr_config \<Rightarrow> string" where
  "qr base32_encode config =
     (let issuer = or_default (issuer config) ''Lockit'';
          label = issuer @ '':'' @ email config;
          encoded = base32_encode (key config);
          uri = encodeURIComponent
                  (''otpauth://totp/'' @ label @ ''?secret='' @ encoded @ ''&issuer='' @ issuer);
          api = ''https://chart.googleapis.com/chart?chs=200x200&cht=qr&chl=''
      in api @ uri)"

section \<open>destroy\<close>

text \<open>The completion callback: it runs on the request it closes over, and may raise.\<close>

type_synonym 'a callback = "'a request_scheme \<Rightarrow> error + 'a request_scheme"

text \<open>
  Modelled from the spec: \<open>req.session.destroy\<close> is a method of the session
  middleware's session object, not under src/. It "destroys the session server-side"
  and "then invokes a completion callback": the session's entry leaves the store and
  the callback runs on the result. What the method returns is not specified; it is the
  argument \<open>ret\<close>.
\<close>

definition session_destroy ::
  "jsval \<Rightarrow> session \<Rightarrow> 'a callback \<Rightarrow> 'a request_scheme \<Rightarrow> error + jsval \<times> 'a request_scheme" where
  "session_destroy ret s callback req =
     (case callback (req\<lparr>sessionStore :=
                          map_option (filter (\<lambda>entry. fst entry \<noteq> sid s)) (sessionStore req)\<rparr>) of
        Inl e \<Rightarrow> Inl e
      | Inr req' \<Rightarrow> Inr (ret, req'))"

text \<open>
  \<open>exports.destroy\<close>, returning its return value and the request after the call.
  With a store the value is that of \<open>req.session.destroy(done)\<close>, and a missing
  session raises at the method read; without one \<open>req.session\<close> becomes \<open>null\<close>,
  the callback runs and the value is \<open>undefined\<close>.
\<close>

definition destroy ::
  "jsval \<Rightarrow> 'a request_scheme \<Rightarrow> 'a callback \<Rightarrow> error + jsval \<times> 'a request_scheme" where
  "destroy ret req callback =
     (case sessionStore req of
        Some store \<Rightarrow>
          (case session req of
             None \<Rightarrow> Inl TypeError
           | Some s \<Rightarrow> session_destroy ret s callback req)
      | None \<Rightarrow>
          (case callback (req\<lparr>session := None\<rparr>) of
             Inl e \<Rightarrow> Inl e
           | Inr req' \<Rightarrow> Inr (JUndefined, req')))"

section \<open>SecretCodec\<close>

type_synonym byte = "8 word"

definition bytes_of_string :: "string \<Rightarrow> byte list" where
  "bytes_of_string s = map (\<lambda>c. of_char c) s"

text \<open>
  Modelled from the spec: the codec is the thirty-two package, not under src/.
  \<open>encode\<close> "maps every 5-bit group of the input (padded with zero bits to a multiple
  of 5) to one of 32 alphabet characters (A-Z, 2-7), appends = characters until the
  output length is a multiple of 8".
\<close>

definition base32_alphabet :: string where
  "base32_alphabet = ''ABCDEFGHIJKLMNOPQRSTUVWXYZ234567''"

fun quintets :: "bool list \<Rightarrow> bool list list" where
  "quintets (a # b # c # d # e # bs) = [a, b, c, d, e] # quintets bs"
| "quintets [] = []"
| "quintets bs = [take 5 (bs @ replicate 4 False)]"

text \<open>Bits are listed most significant first.\<close>

definition byte_bits :: "byte \<Rightarrow> bool list" where
  "byte_bits b = map (bit b) [7, 6, 5, 4, 3, 2, 1, 0]"

definition bits_byte :: "bool list \<Rightarrow> byte" where
  "bits_byte bs = horner_sum of_bool 2 (rev bs)"

definition bits_val :: "bool list \<Rightarrow> nat" where
  "bits_val bs = horner_sum of_bool 2 (rev bs)"

definition encode_char :: "bool list \<Rightarrow> char" where
  "encode_char q = base32_alphabet ! bits_val q"

definition base32_encode :: "byte list \<Rightarrow> string" where
  "base32_encode secret =
     (let cs = map encode_char (quintets (concat (map byte_bits secret)))
      in cs @ replicate ((8 - length cs mod 8) mod 8) (CHR ''=''))"

text \<open>
  Modelled from the spec: \<open>decode\<close> "fails with InvalidEncodingError if text contains
  characters outside the alphabet (case-insensitive accepted) or has inconsistent
  padding": the text is a multiple of 8 characters long, alphabet characters followed
  by \<open>=\<close> characters only. The 5-bit groups are joined and read as bytes; the bits
  left over at the end are the zero padding of \<open>encode\<close>.
\<close>

definition decode_char :: "char \<Rightarrow> nat option" where
  "decode_char c =
     (let n = (of_char c :: nat)
      in if 65 \<le> n \<and> n \<le> 90 then Some (n - 65)
         else if 97 \<le> n \<and> n \<le> 122 then Some (n - 97)
         else if 50 \<le> n \<and> n \<le> 55 then Some (n - 24)
         else None)"

definition val_bits :: "nat \<Rightarrow> bool list" where
  "val_bits v = map (bit v) [4, 3, 2, 1, 0]"

fun octets :: "bool list \<Rightarrow> bool list list" where
  "octets (a # b # c # d # e # f # g # h # bs) = [a, b, c, d, e, f, g, h] # octets bs"
| "octets bs = []"

fun decode_chars :: "string \<Rightarrow> error + bool list" where
  "decode_chars [] = Inr []"
| "decode_chars (c # cs) =
     (case decode_char c of
        None \<Rightarrow> Inl InvalidEncodingError
      | Some v \<Rightarrow> (case decode_chars cs of
                    Inl e \<Rightarrow> Inl e
                  | Inr bits \<Rightarrow> Inr (val_bits v @ bits)))"

definition base32_decode :: "string \<Rightarrow> error + byte list" where
  "base32_decode text =
     (let body = takeWhile (\<lambda>c. c \<noteq> CHR ''='') text;
          padding = dropWhile (\<lambda>c. c \<noteq> CHR ''='') text
      in if length text mod 8 \<noteq> 0 \<or> (\<exists>c \<in> set padding. c \<noteq> CHR ''='')
         then Inl InvalidEncodingError
         else (case decode_chars body of
                 Inl e \<Rightarrow> Inl e
               | Inr bits \<Rightarrow> Inr (map bits_byte (octets bits))))"

section \<open>OtpEngine\<close>

text \<open>
  Modelled from the spec: the engine is the notp package, not under src/. The spec
  fixes \<open>generate\<close> as the RFC 4226 transform over HMAC-SHA1, "bit-exact"; SHA-1
  (RFC 3174) and HMAC (RFC 2104) are written out so that the spec's test vector can
  be checked.
\<close>

type_synonym u32 = "32 word"
type_synonym u64 = "64 word"

definition be_bytes :: "u64 \<Rightarrow> byte list" where
  "be_bytes v = map (\<lambda>i. ucast (drop_bit (8 * (7 - i)) v AND 0xFF)) [0, 1, 2, 3, 4, 5, 6, 7]"

definition sha1_pad :: "byte list \<Rightarrow> byte list" where
  "sha1_pad m =
     m @ [0x80] @ replicate ((119 - length m mod 64) mod 64) 0
       @ be_bytes (8 * word_of_nat (length m))"

definition rotl32 :: "nat \<Rightarrow> u32 \<Rightarrow> u32" where
  "rotl32 n w = push_bit n w OR drop_bit (32 - n) w"

fun be_word :: "byte list \<Rightarrow> u32" where
  "be_word [] = 0"
| "be_word (b # bs) = push_bit (8 * length bs) (ucast b) OR be_word bs"

fun words_of :: "byte list \<Rightarrow> u32 list" where
  "words_of (a # b # c # d # bs) = be_word [a, b, c, d] # words_of bs"
| "words_of bs = []"

definition sha1_f :: "nat \<Rightarrow> u32 \<Rightarrow> u32 \<Rightarrow> u32 \<Rightarrow> u32" where
  "sha1_f t b c d =
     (if t < 20 then (b AND c) OR (NOT b AND d)
      else if t < 40 then b XOR c XOR d
      else if t < 60 then (b AND c) OR (b AND d) OR (c AND d)
      else b XOR c XOR d)"

definition sha1_k :: "nat \<Rightarrow> u32" where
  "sha1_k t =
     (if t < 20 then 0x5A827999 else if t < 40 then 0x6ED9EBA1
      else if t < 60 then 0x8F1BBCDC else 0xCA62C1D6)"

type_synonym sha1_state = "u32 \<times> u32 \<times> u32 \<times> u32 \<times> u32"

text \<open>One round: the 16 most recent schedule words slide, the five registers rotate.\<close>

fun sha1_round :: "u32 list \<times> sha1_state \<Rightarrow> nat \<Rightarrow> u32 list \<times> sha1_state" where
  "sha1_round (w, a, b, c, d, e) t =
     (tl w @ [rotl32 1 (w ! 13 XOR w ! 8 XOR w ! 2 XOR w ! 0)],
      rotl32 5 a + sha1_f t b c d + e + sha1_k t + hd w, a, rotl32 30 b, c, d)"

fun sha1_add :: "sha1_state \<Rightarrow> u32 list \<times> sha1_state \<Rightarrow> sha1_state" where
  "sha1_add (h0, h1, h2, h3, h4) (w, a, b, c, d, e) = (h0 + a, h1 + b, h2 + c, h3 + d, h4 + e)"

definition sha1_block :: "sha1_state \<Rightarrow> byte list \<Rightarrow> sha1_state" where
  "sha1_block h block = sha1_add h (foldl sha1_round (words_of block, h) [0..<80])"

fun sha1_blocks :: "sha1_state \<Rightarrow> byte list \<Rightarrow> sha1_state" where
  "sha1_blocks st [] = st"
| "sha1_blocks st (b # bs) =
     sha1_blocks (sha1_block st (take 64 (b # bs))) (drop 64 (b # bs))"

definition sha1_init :: sha1_state where
  "sha1_init = (0x67452301, 0xEFCDAB89, 0x98BADCFE, 0x10325476, 0xC3D2E1F0)"

definition word_bytes :: "u32 \<Rightarrow> byte list" where
  "word_bytes w =
     [ucast (drop_bit 24 w AND 0xFF), ucast (drop_bit 16 w AND 0xFF),
      ucast (drop_bit 8 w AND 0xFF), ucast (w AND 0xFF)]"

fun state_bytes :: "sha1_state \<Rightarrow> byte list" where
  "state_bytes (a, b, c, d, e) =
     word_bytes a @ word_bytes b @ word_bytes c @ word_bytes d @ word_bytes e"

definition sha1 :: "byte list \<Rightarrow> byte list" where
  "sha1 m = state_bytes (sha1_blocks sha1_init (sha1_pad m))"

definition hmac_key :: "byte list \<Rightarrow> byte list" where
  "hmac_key k = (let k0 = (if 64 < length k then sha1 k else k) in k0 @ replicate (64 - length k0) 0)"

definition hmac_sha1 :: "byte list \<Rightarrow> byte list \<Rightarrow> byte list" where
  "hmac_sha1 k m =
     sha1 (map (\<lambda>b. b XOR 0x5C) (hmac_key k) @ sha1 (map (\<lambda>b. b XOR 0x36) (hmac_key k) @ m))"

text \<open>
  Modelled from the spec: dynamic truncation, "offset = H[19] & 0x0F; take 4 bytes
  H[offset..offset+4], mask the most significant bit of the first byte to zero,
  interpret as a big-endian 31-bit unsigned integer P".
\<close>

definition dynamic_truncate :: "byte list \<Rightarrow> int" where
  "dynamic_truncate h =
     (let offset = unat (h ! 19 AND 0x0F)
      in uint (be_word (take 4 (drop offset h)) AND 0x7FFFFFFF))"

text \<open>"Code = P mod 10^digits, rendered as a zero-padded decimal string of width digits".\<close>

fun decimal :: "nat \<Rightarrow> int \<Rightarrow> string" where
  "decimal 0 v = []"
| "decimal (Suc n) v = decimal n (v div 10) @ [''0123456789'' ! nat (v mod 10)]"

text \<open>
  Modelled from the spec: \<open>generate\<close>; an empty secret is the \<open>InvalidSecretError\<close>
  of the spec's error taxonomy.
\<close>

definition generate :: "byte list \<Rightarrow> u64 \<Rightarrow> nat \<Rightarrow> error + string" where
  "generate secret counter digits =
     (if secret = [] then Inl InvalidSecretError
      else Inr (decimal digits (dynamic_truncate (hmac_sha1 secret (be_bytes counter)) mod 10 ^ digits)))"

record verification_window =
  windowSize :: nat
  timeStep :: nat

definition default_window :: verification_window where
  "default_window = \<lparr> windowSize = 6, timeStep = 30 \<rparr>"

record verify_result =
  matched :: bool
  delta :: "int option"

text \<open>
  Modelled from the spec: the search order, "try delta = 0 first, then increasing
  absolute distance, ties broken toward the earlier/past offset".
\<close>

fun offsets_upto :: "nat \<Rightarrow> int list" where
  "offsets_upto 0 = [0]"
| "offsets_upto (Suc n) = offsets_upto n @ [- int (Suc n), int (Suc n)]"

text \<open>
  Modelled from the spec: the window search compares \<open>generate(secret, currentCounter
  + delta)\<close> with the submitted code and returns "the first matching delta, or
  {matched: false} if no offset in the window matches". The counter is 64 bits wide,
  so the sum wraps.
\<close>

fun search :: "byte list \<Rightarrow> u64 \<Rightarrow> string \<Rightarrow> int list \<Rightarrow> error + verify_result" where
  "search secret c code [] = Inr \<lparr> matched = False, delta = None \<rparr>"
| "search secret c code (d # ds) =
     (case generate secret (c + word_of_int d) 6 of
        Inl e \<Rightarrow> Inl e
      | Inr g \<Rightarrow>
          if g = code then Inr \<lparr> matched = True, delta = Some d \<rparr>
          else search secret c code ds)"

definition currentCounter :: "verification_window \<Rightarrow> nat \<Rightarrow> u64" where
  "currentCounter w now = word_of_nat (now div timeStep w)"

definition otp_verify ::
  "string \<Rightarrow> byte list \<Rightarrow> verification_window \<Rightarrow> nat \<Rightarrow> error + verify_result" where
  "otp_verify submittedCode secret w now =
     search secret (currentCounter w now) submittedCode (offsets_upto (windowSize w))"

text \<open>
  The engine as the \<open>totp.verify\<close> that \<open>exports.verify\<close> calls: the options give
  the window, with the documented defaults 6 and 30; the result object carries
  \<open>delta\<close> when there is a match.
\<close>

definition window_of :: "options \<Rightarrow> verification_window" where
  "window_of opts =
     \<lparr> windowSize = (case window opts of None \<Rightarrow> 6 | Some n \<Rightarrow> n),
       timeStep = (case time opts of None \<Rightarrow> 30 | Some n \<Rightarrow> n) \<rparr>"

definition result_value :: "verify_result \<Rightarrow> jsval" where
  "result_value r =
     JObj ((''matched'', JBool (matched r))
           # (case delta r of None \<Rightarrow> [] | Some d \<Rightarrow> [(''delta'', JNum d)]))"

definition engine_verify :: "nat \<Rightarrow> totp_verify" where
  "engine_verify now token k opts =
     (case otp_verify token (bytes_of_string k) (window_of opts) now of
        Inl e \<Rightarrow> Inl e
      | Inr r \<Rightarrow> Inr (result_value r))"

text \<open>
  The secret of the spec's RFC 6238 test vector, the 20 ASCII characters
  \<open>12345678901234567890\<close>.
\<close>

definition rfc_secret :: "byte list" where
  "rfc_secret = bytes_of_string ''12345678901234567890''"

section \<open>Properties of verify\<close>

lemma valid_delta_true_iff:
  "valid_delta verified = Inr (JBool True) \<longleftrightarrow>
     (\<exists>fs. verified = JObj fs \<and> map_of fs ''delta'' = Some (JNum 0))"
  by (cases verified) (auto simp: valid_delta_def strict_eq_num_def split: option.splits)

lemma valid_delta_bool:
  "valid_delta verified = Inr (JBool True) \<or> valid_delta verified = Inr (JBool False)"
  by (cases verified) (auto simp: valid_delta_def strict_eq_num_def split: option.splits)

text \<open>
  Claim C1. The exported \<open>verify\<close> returns \<open>true\<close> exactly when the underlying
  \<open>totp.verify\<close> returns a match object whose \<open>delta\<close> is the number 0: not when
  the underlying call raises, nor when it returns anything else. A match object with
  any other \<open>delta\<close> yields \<open>false\<close>.
\<close>

theorem verify_true_iff_delta_zero:
  "(verify totp_verify token k opts = Inr (JBool True) \<longleftrightarrow>
      (\<exists>fs. totp_verify token k (case opts of None \<Rightarrow> empty_options | Some x \<Rightarrow> x)
              = Inr (JObj fs)
            \<and> map_of fs ''delta'' = Some (JNum 0)))
   \<and> (\<forall>fs d. totp_verify token k (case opts of None \<Rightarrow> empty_options | Some x \<Rightarrow> x)
              = Inr (JObj fs)
            \<and> map_of fs ''delta'' = Some (JNum d) \<and> d \<noteq> 0 \<longrightarrow>
          verify totp_verify token k opts = Inr (JBool False))"
proof (cases "totp_verify token k (case opts of None \<Rightarrow> empty_options | Some x \<Rightarrow> x)")
  case (Inl e)
  then have "verify totp_verify token k opts = Inl e"
    by (simp add: verify_def)
  with Inl show ?thesis by simp
next
  case (Inr verified)
  then have v: "verify totp_verify token k opts = valid_delta verified"
    by (simp add: verify_def)
  have "\<forall>fs d. verified = JObj fs \<and> map_of fs ''delta'' = Some (JNum d) \<and> d \<noteq> 0 \<longrightarrow>
          valid_delta verified = Inr (JBool False)"
    by (simp add: valid_delta_def strict_eq_num_def)
  then show ?thesis
    unfolding v Inr using valid_delta_true_iff [of verified] by simp
qed

theorem verify_true_iff_delta_zero_witness:
  "verify (\<lambda>t k' opts. Inr (JObj [(''delta'', JNum 0)])) ''287082'' ''abcd1234'' None
     = Inr (JBool True)
   \<and> verify (\<lambda>t k' opts. Inr (JObj [(''delta'', JNum 2)])) ''287082'' ''abcd1234'' None
     = Inr (JBool False)
   \<and> verify (\<lambda>t k' opts. Inl TypeError) ''287082'' ''abcd1234'' None \<noteq> Inr (JBool True)"
  using verify_true_iff_delta_zero [of "\<lambda>t k' opts. Inr (JObj [(''delta'', JNum 0)])"
          "''287082''" "''abcd1234''" None]
        verify_true_iff_delta_zero [of "\<lambda>t k' opts. Inr (JObj [(''delta'', JNum 2)])"
          "''287082''" "''abcd1234''" None]
        verify_true_iff_delta_zero [of "\<lambda>t k' opts. Inl TypeError"
          "''287082''" "''abcd1234''" None]
  by simp

text \<open>
  Claim C9. Whenever the underlying \<open>totp.verify\<close> returns, whatever it returns
  (\<open>null\<close>, \<open>undefined\<close>, an object with a non-zero \<open>delta\<close>) and with or without an
  options argument, the exported \<open>verify\<close> returns the Boolean \<open>true\<close> or the Boolean
  \<open>false\<close>, never the underlying value.
\<close>

theorem verify_returns_boolean:
  assumes "totp_verify token k (case opts of None \<Rightarrow> empty_options | Some x \<Rightarrow> x) = Inr verified"
  shows "verify totp_verify token k opts = Inr (JBool True)
         \<or> verify totp_verify token k opts = Inr (JBool False)"
proof -
  have "verify totp_verify token k opts = valid_delta verified"
    using assms by (simp add: verify_def)
  then show ?thesis using valid_delta_bool [of verified] by simp
qed

theorem verify_returns_boolean_witness:
  "verify (\<lambda>t k' opts. Inr JNull) ''123456'' ''abcd1234'' None = Inr (JBool False)
   \<and> verify (\<lambda>t k' opts. Inr JUndefined) ''123456'' ''abcd1234'' (Some empty_options)
       = Inr (JBool False)"
  using verify_returns_boolean [of "\<lambda>t k' opts. Inr JNull" "''123456''" "''abcd1234''" None JNull]
        verify_returns_boolean [of "\<lambda>t k' opts. Inr JUndefined" "''123456''" "''abcd1234''"
          "Some empty_options" JUndefined]
  by (simp add: verify_def valid_delta_def)

section \<open>Properties of restrict\<close>

text \<open>
  Claim C7, as stated, at a request without a session, with the \<open>rest\<close> flag set:
  the guard raises at the read of \<open>req.session.loggedIn\<close>; it neither calls
  \<open>next\<close>, nor sends 401, nor redirects.
\<close>

theorem restrict_no_session_counterexample:
  "restrict (Some \<lparr> loginRoute = Some ''/signin'', rest = JBool True, db = None \<rparr>)
     \<lparr> session = None, sessionStore = None, url = ''/private'' \<rparr>
   = Inl TypeError
   \<and> restrict (Some \<lparr> loginRoute = Some ''/signin'', rest = JBool True, db = None \<rparr>)
     \<lparr> session = None, sessionStore = None, url = ''/private'' \<rparr>
   \<noteq> Inr (Send 401)"
  by (simp add: restrict_def)

text \<open>
  Claim C7, amended. For a request that carries a session, the guard calls \<open>next\<close>
  when the session is logged in; otherwise it sends the status 401, and does not
  redirect, when the \<open>rest\<close> flag of the configuration is set; otherwise it redirects
  to the login route of the configuration (\<open>/login\<close> when none is set) followed by
  \<open>?redirect=\<close> and the requested URL. For a request without a session it raises a
  TypeError and does none of the three.
\<close>

theorem restrict_guard:
  assumes "cfg = (case config of None \<Rightarrow> empty_config | Some c \<Rightarrow> c)"
  shows "restrict config req =
           (case session req of
              None \<Rightarrow> Inl TypeError
            | Some s \<Rightarrow>
                Inr (if truthy (loggedIn s) then Next
                     else if truthy (rest cfg) then Send 401
                     else Redirect (or_default (loginRoute cfg) ''/login''
                                    @ ''?redirect='' @ url req)))"
  using assms by (simp add: restrict_def Let_def split: option.split)

theorem restrict_guard_witness:
  "restrict (Some \<lparr> loginRoute = Some ''/signin'', rest = JBool False, db = None \<rparr>)
     \<lparr> session = Some \<lparr> loggedIn = JBool False, sid = 1 \<rparr>, sessionStore = None,
       url = ''/private'' \<rparr>
   = Inr (Redirect ''/signin?redirect=/private'')
   \<and> restrict (Some \<lparr> loginRoute = Some ''/signin'', rest = JBool True, db = None \<rparr>)
     \<lparr> session = Some \<lparr> loggedIn = JBool False, sid = 1 \<rparr>, sessionStore = None,
       url = ''/private'' \<rparr>
   = Inr (Send 401)
   \<and> restrict (Some \<lparr> loginRoute = Some ''/signin'', rest = JBool True, db = None \<rparr>)
     \<lparr> session = Some \<lparr> loggedIn = JBool True, sid = 1 \<rparr>, sessionStore = None,
       url = ''/private'' \<rparr>
   = Inr Next
   \<and> restrict (Some \<lparr> loginRoute = Some ''/signin'', rest = JBool False, db = None \<rparr>)
     \<lparr> session = None, sessionStore = None, url = ''/private'' \<rparr>
   = Inl TypeError"
  using restrict_guard [of
      "\<lparr> loginRoute = Some ''/signin'', rest = JBool False, db = None \<rparr>"
      "Some \<lparr> loginRoute = Some ''/signin'', rest = JBool False, db = None \<rparr>"
      "\<lparr> session = Some \<lparr> loggedIn = JBool False, sid = 1 \<rparr>, sessionStore = None,
         url = ''/private'' \<rparr>"]
    restrict_guard [of
      "\<lparr> loginRoute = Some ''/signin'', rest = JBool True, db = None \<rparr>"
      "Some \<lparr> loginRoute = Some ''/signin'', rest = JBool True, db = None \<rparr>"
      "\<lparr> session = Some \<lparr> loggedIn = JBool False, sid = 1 \<rparr>, sessionStore = None,
         url = ''/private'' \<rparr>"]
    restrict_guard [of
      "\<lparr> loginRoute = Some ''/signin'', rest = JBool True, db = None \<rparr>"
      "Some \<lparr> loginRoute = Some ''/signin'', rest = JBool True, db = None \<rparr>"
      "\<lparr> session = Some \<lparr> loggedIn = JBool True, sid = 1 \<rparr>, sessionStore = None,
         url = ''/private'' \<rparr>"]
    restrict_guard [of
      "\<lparr> loginRoute = Some ''/signin'', rest = JBool False, db = None \<rparr>"
      "Some \<lparr> loginRoute = Some ''/signin'', rest = JBool False, db = None \<rparr>"
      "\<lparr> session = None, sessionStore = None, url = ''/private'' \<rparr>"]
  by (simp add: or_default_def)

text \<open>
  Claim C10, as stated, at a request without a session and no configuration object:
  the request is neither authenticated nor that of a machine client, and the guard
  raises instead of redirecting to \<open>/login\<close>.
\<close>

theorem restrict_default_no_session_counterexample:
  "restrict None \<lparr> session = None, sessionStore = None, url = ''/private'' \<rparr>
   = Inl TypeError
   \<and> restrict None \<lparr> session = None, sessionStore = None, url = ''/private'' \<rparr>
   \<noteq> Inr (Redirect ''/login?redirect=/private'')"
  by (simp add: restrict_def)

text \<open>
  Claim C10, amended. Called with no configuration object, or with one that lacks
  \<open>loginRoute\<close> and does not set \<open>rest\<close>, the guard redirects every request that
  carries a session which is not logged in to \<open>/login?redirect=\<close> followed by the
  requested URL, and calls \<open>next\<close> when the session is logged in; for a request
  without a session it raises a TypeError.
\<close>

theorem restrict_default_route:
  assumes "config = None \<or> (\<exists>c. config = Some c \<and> loginRoute c = None \<and> \<not> truthy (rest c))"
  shows "restrict config req =
           (case session req of
              None \<Rightarrow> Inl TypeError
            | Some s \<Rightarrow>
                if truthy (loggedIn s) then Inr Next
                else Inr (Redirect (''/login?redirect='' @ url req)))"
  using assms
  by (auto simp: restrict_def Let_def empty_config_def or_default_def split: option.split)

theorem restrict_default_route_witness:
  "restrict None
     \<lparr> session = Some \<lparr> loggedIn = JUndefined, sid = 1 \<rparr>, sessionStore = None,
       url = ''/private'' \<rparr>
   = Inr (Redirect ''/login?redirect=/private'')
   \<and> restrict (Some \<lparr> loginRoute = None, rest = JUndefined, db = None \<rparr>)
     \<lparr> session = Some \<lparr> loggedIn = JBool False, sid = 1 \<rparr>, sessionStore = None,
       url = ''/a?b=c'' \<rparr>
   = Inr (Redirect ''/login?redirect=/a?b=c'')"
  using restrict_default_route [of None
      "\<lparr> session = Some \<lparr> loggedIn = JUndefined, sid = 1 \<rparr>, sessionStore = None,
         url = ''/private'' \<rparr>"]
    restrict_default_route [of
      "Some \<lparr> loginRoute = None, rest = JUndefined, db = None \<rparr>"
      "\<lparr> session = Some \<lparr> loggedIn = JBool False, sid = 1 \<rparr>, sessionStore = None,
         url = ''/a?b=c'' \<rparr>"]
  by simp

section \<open>Properties of destroy\<close>

text \<open>
  Claim C8, as stated, at a request with a session store: without a session
  \<open>destroy\<close> raises at the read of \<open>req.session.destroy\<close> and the completion
  callback never runs; with a session whose own \<open>destroy\<close> returns the session
  object, that object is what \<open>destroy\<close> returns.
\<close>

theorem destroy_store_counterexample:
  "destroy JUndefined
     \<lparr> session = None, sessionStore = Some [], url = ''/logout'' \<rparr>
     (\<lambda>r. Inr (r\<lparr>url := ''/called''\<rparr>))
   = Inl TypeError
   \<and> destroy (JObj [(''id'', JNum 7)])
     \<lparr> session = Some \<lparr> loggedIn = JBool True, sid = 7 \<rparr>,
       sessionStore = Some [(7, \<lparr> loggedIn = JBool True, sid = 7 \<rparr>)],
       url = ''/logout'' \<rparr>
     (\<lambda>r. Inr (r\<lparr>url := ''/called''\<rparr>))
   = Inr (JObj [(''id'', JNum 7)],
       \<lparr> session = Some \<lparr> loggedIn = JBool True, sid = 7 \<rparr>, sessionStore = Some [],
         url = ''/called'' \<rparr>)"
  by (simp add: destroy_def session_destroy_def)

text \<open>
  Claim C8, amended. With a session store and a session, \<open>destroy\<close> destroys the
  session through the store: the session's entry leaves the store, the completion
  callback runs on the result, and the value returned is whatever the session's own
  \<open>destroy\<close> returns. With a session store and no session it raises a TypeError and
  the callback does not run. Without a store it sets \<open>req.session\<close> to \<open>null\<close>,
  runs the completion callback and returns \<open>undefined\<close>.
\<close>

theorem destroy_session:
  "destroy ret req callback =
     (case sessionStore req of
        Some store \<Rightarrow>
          (case session req of
             None \<Rightarrow> Inl TypeError
           | Some s \<Rightarrow>
               (case callback (req\<lparr>sessionStore :=
                                     Some (filter (\<lambda>entry. fst entry \<noteq> sid s) store)\<rparr>) of
                  Inl e \<Rightarrow> Inl e
                | Inr req' \<Rightarrow> Inr (ret, req')))
      | None \<Rightarrow>
          (case callback (req\<lparr>session := None\<rparr>) of
             Inl e \<Rightarrow> Inl e
           | Inr req' \<Rightarrow> Inr (JUndefined, req')))"
  by (simp add: destroy_def session_destroy_def split: option.split)

theorem destroy_session_witness:
  "destroy (JObj [(''id'', JNum 7)])
     \<lparr> session = Some \<lparr> loggedIn = JBool True, sid = 7 \<rparr>,
       sessionStore = Some [(3, \<lparr> loggedIn = JBool False, sid = 3 \<rparr>),
                            (7, \<lparr> loggedIn = JBool True, sid = 7 \<rparr>)],
       url = ''/logout'' \<rparr>
     (\<lambda>r. Inr (r\<lparr>url := ''/called''\<rparr>))
   = Inr (JObj [(''id'', JNum 7)],
       \<lparr> session = Some \<lparr> loggedIn = JBool True, sid = 7 \<rparr>,
         sessionStore = Some [(3, \<lparr> loggedIn = JBool False, sid = 3 \<rparr>)],
         url = ''/called'' \<rparr>)
   \<and> destroy (JObj [(''id'', JNum 7)])
     \<lparr> session = None, sessionStore = Some [(3, \<lparr> loggedIn = JBool False, sid = 3 \<rparr>)],
       url = ''/logout'' \<rparr>
     (\<lambda>r. Inr (r\<lparr>url := ''/called''\<rparr>))
   = Inl TypeError
   \<and> destroy (JObj [(''id'', JNum 7)])
     \<lparr> session = Some \<lparr> loggedIn = JBool True, sid = 7 \<rparr>, sessionStore = None,
       url = ''/logout'' \<rparr>
     (\<lambda>r. Inr (r\<lparr>url := ''/called''\<rparr>))
   = Inr (JUndefined, \<lparr> session = None, sessionStore = None, url = ''/called'' \<rparr>)"
  using destroy_session [of "JObj [(''id'', JNum 7)]"
      "\<lparr> session = Some \<lparr> loggedIn = JBool True, sid = 7 \<rparr>,
         sessionStore = Some [(3, \<lparr> loggedIn = JBool False, sid = 3 \<rparr>),
                              (7, \<lparr> loggedIn = JBool True, sid = 7 \<rparr>)],
         url = ''/logout'' \<rparr>"
      "\<lambda>r. Inr (r\<lparr>url := ''/called''\<rparr>)"]
    destroy_session [of "JObj [(''id'', JNum 7)]"
      "\<lparr> session = None, sessionStore = Some [(3, \<lparr> loggedIn = JBool False, sid = 3 \<rparr>)],
         url = ''/logout'' \<rparr>"
      "\<lambda>r. Inr (r\<lparr>url := ''/called''\<rparr>)"]
    destroy_session [of "JObj [(''id'', JNum 7)]"
      "\<lparr> session = Some \<lparr> loggedIn = JBool True, sid = 7 \<rparr>, sessionStore = None,
         url = ''/logout'' \<rparr>"
      "\<lambda>r. Inr (r\<lparr>url := ''/called''\<rparr>)"]
  by simp

section \<open>Properties of getDatabase\<close>

lemma url_protocol_postgres: "url_protocol ''postgres://127.0.0.1:5432/'' = Some ''postgres:''"
  by (simp add: url_protocol_def scheme_char_def lower_char_def)

lemma url_protocol_redis: "url_protocol ''redis://127.0.0.1:6379/'' = Some ''redis:''"
  by (simp add: url_protocol_def scheme_char_def lower_char_def)

text \<open>
  Claim C4, as stated, at an unrecognised scheme: the resolver returns the empty object
  and reports no error.
\<close>

theorem getDatabase_unknown_scheme_counterexample:
  "getDatabase url_protocol
     \<lparr> loginRoute = None, rest = JUndefined, db = Some (DbString ''redis://127.0.0.1:6379/'') \<rparr>
   = Inr (JObj [])
   \<and> getDatabase url_protocol
     \<lparr> loginRoute = None, rest = JUndefined, db = Some (DbString ''redis://127.0.0.1:6379/'') \<rparr>
   \<noteq> Inl UnrecognizedSchemeError"
  by (simp add: getDatabase_def db_uri_def db_switch_def url_protocol_redis)

text \<open>
  Claim C4, amended. For a descriptor that yields a URI string, the resolver returns
  the type and adapter of the protocol (\<open>http:\<close> or \<open>https:\<close> couchdb, \<open>mongodb:\<close>
  mongodb, \<open>postgres:\<close> postgresql, \<open>mysql:\<close> mysql, \<open>sqlite:\<close> sqlite), and for
  every other protocol, or none, it returns the empty object, with neither type nor
  adapter, and no error.
\<close>

theorem getDatabase_by_scheme:
  assumes "db_uri config = Inr uri"
  shows "(protocol uri = Some ''http:'' \<or> protocol uri = Some ''https:'' \<longrightarrow>
            getDatabase protocol config =
              Inr (JObj [(''type'', JStr ''couchdb''), (''adapter'', JStr ''lockit-couchdb-adapter'')]))
       \<and> (protocol uri = Some ''mongodb:'' \<longrightarrow>
            getDatabase protocol config =
              Inr (JObj [(''type'', JStr ''mongodb''), (''adapter'', JStr ''lockit-mongodb-adapter'')]))
       \<and> (protocol uri = Some ''postgres:'' \<longrightarrow>
            getDatabase protocol config =
              Inr (JObj [(''type'', JStr ''postgresql''), (''adapter'', JStr ''lockit-sql-adapter'')]))
       \<and> (protocol uri = Some ''mysql:'' \<longrightarrow>
            getDatabase protocol config =
              Inr (JObj [(''type'', JStr ''mysql''), (''adapter'', JStr ''lockit-sql-adapter'')]))
       \<and> (protocol uri = Some ''sqlite:'' \<longrightarrow>
            getDatabase protocol config =
              Inr (JObj [(''type'', JStr ''sqlite''), (''adapter'', JStr ''lockit-sql-adapter'')]))
       \<and> (protocol uri \<notin> {Some ''http:'', Some ''https:'', Some ''mongodb:'', Some ''postgres:'',
                            Some ''mysql:'', Some ''sqlite:''} \<longrightarrow>
            getDatabase protocol config = Inr (JObj []))"
  using assms by (simp add: getDatabase_def db_switch_def)

theorem getDatabase_by_scheme_witness:
  "getDatabase url_protocol
     \<lparr> loginRoute = None, rest = JUndefined, db = Some (DbObject (Some ''postgres://127.0.0.1:5432/'')) \<rparr>
   = Inr (JObj [(''type'', JStr ''postgresql''), (''adapter'', JStr ''lockit-sql-adapter'')])
   \<and> getDatabase url_protocol
     \<lparr> loginRoute = None, rest = JUndefined, db = Some (DbString ''redis://127.0.0.1:6379/'') \<rparr>
   = Inr (JObj [])"
  using getDatabase_by_scheme [of
      "\<lparr> loginRoute = None, rest = JUndefined, db = Some (DbObject (Some ''postgres://127.0.0.1:5432/'')) \<rparr>"
      "''postgres://127.0.0.1:5432/''" url_protocol]
    getDatabase_by_scheme [of
      "\<lparr> loginRoute = None, rest = JUndefined, db = Some (DbString ''redis://127.0.0.1:6379/'') \<rparr>"
      "''redis://127.0.0.1:6379/''" url_protocol]
  by (simp add: db_uri_def url_protocol_postgres url_protocol_redis)

section \<open>Properties of qr\<close>

lemma replicate_numeral_Cons: "replicate (numeral n) x = x # replicate (pred_numeral n) x"
  by (simp add: numeral_eq_Suc)

lemma base32_abcd1234: "base32_encode (bytes_of_string ''abcd1234'') = ''MFRGGZBRGIZTI===''"
  by (simp add: base32_encode_def bytes_of_string_def byte_bits_def encode_char_def
      bits_val_def base32_alphabet_def replicate_numeral_Cons)

lemma encodeURIComponent_append:
  "encodeURIComponent (a @ b) = encodeURIComponent a @ encodeURIComponent b"
  by (simp add: encodeURIComponent_def)

lemma encodeURIComponent_Cons:
  "encodeURIComponent (c # s) = percent_encode c @ encodeURIComponent s"
  by (simp add: encodeURIComponent_def)

lemma encodeURIComponent_Nil: "encodeURIComponent [] = []"
  by (simp add: encodeURIComponent_def)

lemmas uri_eval =
  encodeURIComponent_Cons encodeURIComponent_Nil percent_encode_def uri_unreserved_def hex_digit_def

lemma uri_scheme_part: "encodeURIComponent ''otpauth://totp/'' = ''otpauth%3A%2F%2Ftotp%2F''"
  by (simp add: uri_eval)

lemma uri_alice_part:
  "encodeURIComponent ''Acme:alice@example.com?secret='' = ''Acme%3Aalice%40example.com%3Fsecret%3D''"
  by (simp add: uri_eval)

lemma uri_issuer_part: "encodeURIComponent ''&issuer=Acme'' = ''%26issuer%3DAcme''"
  by (simp add: uri_eval)

lemma uri_secret_part: "encodeURIComponent ''MFRGGZBRGIZTI==='' = ''MFRGGZBRGIZTI%3D%3D%3D''"
  by (simp add: uri_eval)

text \<open>
  Claim C3, as stated, at the account label \<open>alice@example.com\<close> and the issuer
  \<open>Acme\<close>: the output starts with the address of the chart service, not with
  \<open>otpauth://totp/\<close>.
\<close>

theorem qr_otpauth_prefix_counterexample:
  "take 49 (qr (\<lambda>k. base32_encode (bytes_of_string k))
     \<lparr> key = ''abcd1234'', email = ''alice@example.com'', issuer = Some ''Acme'' \<rparr>)
   = ''https://chart.googleapis.com/chart?chs=200x200&ch''
   \<and> take 49 (qr (\<lambda>k. base32_encode (bytes_of_string k))
     \<lparr> key = ''abcd1234'', email = ''alice@example.com'', issuer = Some ''Acme'' \<rparr>)
   \<noteq> ''otpauth://totp/Acme%3Aalice%40example.com?secret=''"
  by (simp add: qr_def Let_def)


text \<open>
  Claim C3, amended. The output is the chart address
  \<open>https://chart.googleapis.com/chart?chs=200x200&cht=qr&chl=\<close> followed by the
  percent-encoding, as one URI component, of
  \<open>otpauth://totp/{issuer}:{email}?secret={base32}&issuer={issuer}\<close>; for
  \<open>alice@example.com\<close> and \<open>Acme\<close> the encoded part is
  \<open>otpauth%3A%2F%2Ftotp%2FAcme%3Aalice%40example.com%3Fsecret%3D\<close>, the encoded
  secret and \<open>%26issuer%3DAcme\<close>.
\<close>

theorem qr_chart_url:
  "qr enc config =
     ''https://chart.googleapis.com/chart?chs=200x200&cht=qr&chl=''
     @ encodeURIComponent
         (''otpauth://totp/'' @ or_default (issuer config) ''Lockit'' @ '':'' @ email config
          @ ''?secret='' @ enc (key config) @ ''&issuer='' @ or_default (issuer config) ''Lockit'')
   \<and> (email config = ''alice@example.com'' \<and> issuer config = Some ''Acme'' \<longrightarrow>
        qr enc config =
          ''https://chart.googleapis.com/chart?chs=200x200&cht=qr&chl=''
          @ ''otpauth%3A%2F%2Ftotp%2FAcme%3Aalice%40example.com%3Fsecret%3D''
          @ encodeURIComponent (enc (key config)) @ ''%26issuer%3DAcme'')"
proof -
  have shape: "qr enc config =
     ''https://chart.googleapis.com/chart?chs=200x200&cht=qr&chl=''
     @ encodeURIComponent
         (''otpauth://totp/'' @ or_default (issuer config) ''Lockit'' @ '':'' @ email config
          @ ''?secret='' @ enc (key config) @ ''&issuer='' @ or_default (issuer config) ''Lockit'')"
    by (simp add: qr_def Let_def)
  have alice: "encodeURIComponent
         (''otpauth://totp/'' @ ''Acme'' @ '':'' @ ''alice@example.com''
          @ ''?secret='' @ enc (key config) @ ''&issuer='' @ ''Acme'')
       = ''otpauth%3A%2F%2Ftotp%2FAcme%3Aalice%40example.com%3Fsecret%3D''
          @ encodeURIComponent (enc (key config)) @ ''%26issuer%3DAcme''"
  proof -
    have "''otpauth://totp/'' @ ''Acme'' @ '':'' @ ''alice@example.com''
          @ ''?secret='' @ enc (key config) @ ''&issuer='' @ ''Acme''
        = ''otpauth://totp/'' @ ''Acme:alice@example.com?secret='' @ enc (key config) @ ''&issuer=Acme''"
      by simp
    moreover have "encodeURIComponent
          (''otpauth://totp/'' @ ''Acme:alice@example.com?secret='' @ enc (key config) @ ''&issuer=Acme'')
        = ''otpauth%3A%2F%2Ftotp%2F'' @ ''Acme%3Aalice%40example.com%3Fsecret%3D''
          @ encodeURIComponent (enc (key config)) @ ''%26issuer%3DAcme''"
      by (simp only: encodeURIComponent_append uri_scheme_part uri_alice_part uri_issuer_part)
    ultimately show ?thesis by simp
  qed
  show ?thesis
    using shape alice by (auto simp: or_default_def)
qed

theorem qr_chart_url_witness:
  "qr (\<lambda>k. base32_encode (bytes_of_string k))
     \<lparr> key = ''abcd1234'', email = ''alice@example.com'', issuer = Some ''Acme'' \<rparr>
   = ''https://chart.googleapis.com/chart?chs=200x200&cht=qr&chl=otpauth%3A%2F%2Ftotp%2FAcme%3Aalice%40example.com%3Fsecret%3DMFRGGZBRGIZTI%3D%3D%3D%26issuer%3DAcme''"
proof -
  have "qr (\<lambda>k. base32_encode (bytes_of_string k))
          \<lparr> key = ''abcd1234'', email = ''alice@example.com'', issuer = Some ''Acme'' \<rparr>
        = ''https://chart.googleapis.com/chart?chs=200x200&cht=qr&chl=''
          @ ''otpauth%3A%2F%2Ftotp%2FAcme%3Aalice%40example.com%3Fsecret%3D''
          @ encodeURIComponent (base32_encode (bytes_of_string ''abcd1234'')) @ ''%26issuer%3DAcme''"
    using qr_chart_url [of "\<lambda>k. base32_encode (bytes_of_string k)"
      "\<lparr> key = ''abcd1234'', email = ''alice@example.com'', issuer = Some ''Acme'' \<rparr>",
      THEN conjunct2]
    by simp
  then show ?thesis
    by (simp add: base32_abcd1234 uri_secret_part)
qed

section \<open>Properties of the SecretCodec\<close>

lemma bits_byte_byte_bits: "bits_byte (byte_bits b) = b"
proof -
  have "[0..<8] = [0, 1, 2, 3, 4, 5, 6, 7::nat]"
    by (simp add: upt_rec)
  then have "rev (map (bit b) [7, 6, 5, 4, 3, 2, 1, 0]) = map (bit b) [0..<8]"
    by simp
  then have "bits_byte (byte_bits b) = horner_sum of_bool 2 (map (bit b) [0..<8])"
    by (simp only: bits_byte_def byte_bits_def)
  also have "\<dots> = take_bit 8 b"
    by (rule horner_sum_bit_eq_take_bit)
  also have "\<dots> = b"
    by (simp add: take_bit_word_eq_self)
  finally show ?thesis .
qed

lemma length_byte_bits: "length (byte_bits b) = 8"
  unfolding byte_bits_def length_map by simp

lemma val_bits_bits_val: "val_bits (bits_val [a, b, c, d, e]) = [a, b, c, d, e]"
proof -
  have r: "rev [a, b, c, d, e] = [e, d, c, b, a]"
    by simp
  show ?thesis
    unfolding val_bits_def bits_val_def r list.map bit_horner_sum_bit_iff by simp
qed

lemma decode_encode_char:
  "decode_char (encode_char [a, b, c, d, e]) = Some (bits_val [a, b, c, d, e])"
  by (cases a; cases b; cases c; cases d; cases e;
      simp add: decode_char_def encode_char_def bits_val_def base32_alphabet_def)

lemma encode_char_not_pad: "encode_char [a, b, c, d, e] \<noteq> CHR ''=''"
  by (cases a; cases b; cases c; cases d; cases e;
      simp add: encode_char_def bits_val_def base32_alphabet_def)


lemma quintets_length: "q \<in> set (quintets bs) \<Longrightarrow> length q = 5"
  by (induction bs rule: quintets.induct) auto

lemma concat_quintets:
  "concat (quintets bs) = bs @ replicate ((5 - length bs mod 5) mod 5) False"
proof (induction bs rule: quintets.induct)
  case (1 a b c d e bs)
  have "length (a # b # c # d # e # bs) mod 5 = length bs mod 5"
    by simp
  then show ?case using 1 by simp
qed (simp_all add: replicate_numeral_Cons)

lemma decode_chars_encode:
  "\<forall>q \<in> set qs. length q = 5 \<Longrightarrow> decode_chars (map encode_char qs) = Inr (concat qs)"
proof (induction qs)
  case Nil
  then show ?case by simp
next
  case (Cons q qs)
  then have "length q = 5" by simp
  then obtain a b c d e where q: "q = [a, b, c, d, e]"
    by (auto simp: length_Suc_conv numeral_eq_Suc)
  show ?case
    using Cons by (simp add: q decode_encode_char val_bits_bits_val)
qed

lemma encode_chars_not_pad:
  "\<forall>q \<in> set qs. length q = 5 \<Longrightarrow> \<forall>c \<in> set (map encode_char qs). c \<noteq> CHR ''=''"
proof (induction qs)
  case Nil
  then show ?case by simp
next
  case (Cons q qs)
  then have "length q = 5" by simp
  then obtain a b c d e where q: "q = [a, b, c, d, e]"
    by (auto simp: length_Suc_conv numeral_eq_Suc)
  show ?case
    using Cons by (simp add: q encode_char_not_pad)
qed

lemma octets_short: "length zs < 8 \<Longrightarrow> octets zs = []"
  by (cases zs rule: octets.cases) auto

lemma octets_bytes: "length zs < 8 \<Longrightarrow> octets (concat (map byte_bits s) @ zs) = map byte_bits s"
proof (induction s)
  case Nil
  then show ?case by (simp add: octets_short)
next
  case (Cons b s)
  obtain b7 b6 b5 b4 b3 b2 b1 b0 where bb: "byte_bits b = [b7, b6, b5, b4, b3, b2, b1, b0]"
    unfolding byte_bits_def by simp
  show ?case
    using Cons by (simp add: bb)
qed

lemma pad_length: "(n + (8 - n mod 8) mod 8) mod 8 = (0::nat)"
proof -
  define r where "r = n mod 8"
  have r: "r < 8"
    by (simp add: r_def)
  have "(r + (8 - r) mod 8) mod 8 = 0"
  proof (cases "r = 0")
    case True
    then show ?thesis by simp
  next
    case False
    with r have "(8 - r) mod 8 = 8 - r" by simp
    with r show ?thesis by simp
  qed
  moreover have "(n + (8 - r) mod 8) mod 8 = (r + (8 - r) mod 8) mod 8"
    unfolding r_def by (simp only: mod_add_left_eq)
  ultimately show ?thesis
    unfolding r_def by simp
qed

text \<open>
  Claim C5. For every byte sequence \<open>s\<close>, decoding the base32 encoding of \<open>s\<close>
  yields \<open>s\<close>.
\<close>

theorem base32_round_trip: "base32_decode (base32_encode s) = Inr s"
proof -
  define qs where "qs = quintets (concat (map byte_bits s))"
  define cs where "cs = map encode_char qs"
  define k where "k = (8 - length cs mod 8) mod 8"
  have len5: "\<forall>q \<in> set qs. length q = 5"
    by (simp add: qs_def quintets_length)
  have enc: "base32_encode s = cs @ replicate k (CHR ''='')"
    by (simp add: base32_encode_def cs_def qs_def k_def Let_def)
  have nopad: "\<forall>c \<in> set cs. c \<noteq> CHR ''=''"
    unfolding cs_def using len5 by (rule encode_chars_not_pad)
  have body: "takeWhile (\<lambda>c. c \<noteq> CHR ''='') (cs @ replicate k (CHR ''='')) = cs"
    using nopad by (simp add: takeWhile_append2 takeWhile_replicate)
  have padding: "dropWhile (\<lambda>c. c \<noteq> CHR ''='') (cs @ replicate k (CHR ''='')) = replicate k (CHR ''='')"
    using nopad by (simp add: dropWhile_append2 dropWhile_replicate)
  have len: "length (cs @ replicate k (CHR ''='')) mod 8 = 0"
    by (simp add: k_def pad_length)
  have bits: "decode_chars cs
                = Inr (concat (map byte_bits s)
                       @ replicate ((5 - length (concat (map byte_bits s)) mod 5) mod 5) False)"
    unfolding cs_def using decode_chars_encode [OF len5] by (simp add: qs_def concat_quintets)
  have bytes: "map bits_byte
                 (octets (concat (map byte_bits s)
                          @ replicate ((5 - length (concat (map byte_bits s)) mod 5) mod 5) False))
               = s"
    by (simp add: octets_bytes bits_byte_byte_bits cong: map_cong)
  show ?thesis
    unfolding enc base32_decode_def Let_def body padding
    using len bits bytes by simp
qed

theorem base32_round_trip_witness:
  "base32_decode ''MFRGGZBRGIZTI==='' = Inr (bytes_of_string ''abcd1234'')"
  using base32_round_trip [of "bytes_of_string ''abcd1234''"]
  by (simp only: base32_abcd1234)

section \<open>Properties of the OtpEngine\<close>

lemma length_decimal: "length (decimal n v) = n"
  by (induction n arbitrary: v) auto

lemma digit_char: "''0123456789'' ! nat (v mod (10::int)) \<in> set ''0123456789''"
proof -
  have "nat (v mod 10) < length ''0123456789''"
    by simp
  then show ?thesis
    by (rule nth_mem)
qed

lemma set_decimal: "set (decimal n v) \<subseteq> set ''0123456789''"
proof (induction n arbitrary: v)
  case 0
  then show ?case by simp
next
  case (Suc n)
  have "set (decimal (Suc n) v)
          = set (decimal n (v div 10)) \<union> {''0123456789'' ! nat (v mod 10)}"
    by simp
  then show ?case
    using Suc [of "v div 10"] digit_char [of v] by blast
qed

lemma generate_code:
  assumes "secret \<noteq> []"
  shows "\<exists>code. generate secret c n = Inr code \<and> length code = n
           \<and> set code \<subseteq> set ''0123456789''"
  using assms set_decimal by (simp add: generate_def length_decimal)

lemma search_find:
  assumes "secret \<noteq> []"
  shows "search secret c code ds =
           (case find (\<lambda>d. generate secret (c + word_of_int d) 6 = Inr code) ds of
              None \<Rightarrow> Inr \<lparr> matched = False, delta = None \<rparr>
            | Some d \<Rightarrow> Inr \<lparr> matched = True, delta = Some d \<rparr>)"
proof (induction ds)
  case Nil
  then show ?case by simp
next
  case (Cons d ds)
  obtain g where "generate secret (c + word_of_int d) 6 = Inr g"
    using generate_code [OF assms] by blast
  then show ?case
    using Cons by simp
qed

lemma set_offsets_upto: "set (offsets_upto w) = {d. \<bar>d\<bar> \<le> int w}"
proof (induction w)
  case 0
  then show ?case by auto
next
  case (Suc w)
  have "{d. \<bar>d\<bar> \<le> int w} \<union> {- int (Suc w), int (Suc w)} = {d. \<bar>d\<bar> \<le> int (Suc w)}"
    by auto
  then show ?case
    using Suc by simp
qed

lemma offsets_upto_head: "\<exists>ds. offsets_upto w = 0 # ds"
  by (induction w) auto

lemma otp_verify_current:
  assumes "generate secret (currentCounter w now) 6 = Inr code"
  shows "otp_verify code secret w now = Inr \<lparr> matched = True, delta = Some 0 \<rparr>"
proof -
  obtain ds where "offsets_upto (windowSize w) = 0 # ds"
    using offsets_upto_head by blast
  then show ?thesis
    using assms by (simp add: otp_verify_def)
qed

lemma otp_verify_no_match:
  assumes "secret \<noteq> []"
    and "\<forall>d. \<bar>d\<bar> \<le> int (windowSize w) \<longrightarrow>
           generate secret (currentCounter w now + word_of_int d) 6 \<noteq> Inr code"
  shows "otp_verify code secret w now = Inr \<lparr> matched = False, delta = None \<rparr>"
proof -
  have "find (\<lambda>d. generate secret (currentCounter w now + word_of_int d) 6 = Inr code)
          (offsets_upto (windowSize w)) = None"
    using assms(2) by (simp add: find_None_iff set_offsets_upto)
  then show ?thesis
    by (simp add: otp_verify_def search_find [OF assms(1)])
qed

lemma otp_verify_match:
  assumes "secret \<noteq> []"
    and "\<bar>k\<bar> \<le> int (windowSize w)"
    and "generate secret (currentCounter w now + word_of_int k) 6 = Inr code"
  shows "\<exists>j. \<bar>j\<bar> \<le> int (windowSize w)
           \<and> generate secret (currentCounter w now + word_of_int j) 6 = Inr code
           \<and> otp_verify code secret w now = Inr \<lparr> matched = True, delta = Some j \<rparr>"
proof -
  let ?P = "\<lambda>d. generate secret (currentCounter w now + word_of_int d) 6 = Inr code"
  have "k \<in> set (offsets_upto (windowSize w))"
    using assms(2) by (simp add: set_offsets_upto)
  then have "find ?P (offsets_upto (windowSize w)) \<noteq> None"
    using assms(3) by (auto simp: find_None_iff)
  then obtain j where j: "find ?P (offsets_upto (windowSize w)) = Some j"
    by blast
  then have "?P j" and "j \<in> set (offsets_upto (windowSize w))"
    by (auto simp: find_Some_iff)
  then show ?thesis
    using j by (auto simp: otp_verify_def search_find [OF assms(1)] set_offsets_upto)
qed

lemma bytes_of_string_nonempty: "k \<noteq> [] \<Longrightarrow> bytes_of_string k \<noteq> []"
  by (simp add: bytes_of_string_def)

lemma malformed_no_code:
  assumes "secret \<noteq> []"
    and "length token \<noteq> 6 \<or> \<not> set token \<subseteq> set ''0123456789''"
  shows "generate secret c 6 \<noteq> Inr token"
  using generate_code [OF assms(1), of c 6] assms(2) by auto

lemma valid_delta_no_match:
  "valid_delta (result_value \<lparr> matched = False, delta = None \<rparr>) = Inr (JBool False)"
  by (simp add: valid_delta_def result_value_def strict_eq_num_def)

text \<open>
  Claim C6. For a non-empty key and every token string, the window search returns a
  result value and the exported \<open>verify\<close> returns a Boolean: neither raises. A token
  of the wrong length, or with a character that is not a digit, is reported as the
  ordinary non-match \<open>{matched: false}\<close>, and as \<open>false\<close> by the exported \<open>verify\<close>.
\<close>

theorem verify_never_throws:
  assumes "k \<noteq> []"
    and "opts = (case oo of None \<Rightarrow> empty_options | Some x \<Rightarrow> x)"
  shows "(\<exists>r. otp_verify token (bytes_of_string k) (window_of opts) now = Inr r)
       \<and> (verify (engine_verify now) token k oo = Inr (JBool True)
          \<or> verify (engine_verify now) token k oo = Inr (JBool False))
       \<and> (length token \<noteq> 6 \<or> \<not> set token \<subseteq> set ''0123456789'' \<longrightarrow>
            otp_verify token (bytes_of_string k) (window_of opts) now
              = Inr \<lparr> matched = False, delta = None \<rparr>
            \<and> verify (engine_verify now) token k oo = Inr (JBool False))"
proof -
  let ?s = "bytes_of_string k"
  have s: "?s \<noteq> []"
    using assms(1) by (rule bytes_of_string_nonempty)
  have total: "\<exists>r. otp_verify token ?s (window_of opts) now = Inr r"
    by (simp add: otp_verify_def search_find [OF s] split: option.split)
  then obtain r where r: "otp_verify token ?s (window_of opts) now = Inr r"
    by blast
  then have v: "verify (engine_verify now) token k oo = valid_delta (result_value r)"
    using assms(2) by (simp add: verify_def engine_verify_def)
  have bool: "verify (engine_verify now) token k oo = Inr (JBool True)
          \<or> verify (engine_verify now) token k oo = Inr (JBool False)"
    unfolding v by (rule valid_delta_bool)
  have malformed: "length token \<noteq> 6 \<or> \<not> set token \<subseteq> set ''0123456789'' \<longrightarrow>
            otp_verify token ?s (window_of opts) now = Inr \<lparr> matched = False, delta = None \<rparr>
            \<and> verify (engine_verify now) token k oo = Inr (JBool False)"
  proof
    assume m: "length token \<noteq> 6 \<or> \<not> set token \<subseteq> set ''0123456789''"
    have "otp_verify token ?s (window_of opts) now = Inr \<lparr> matched = False, delta = None \<rparr>"
      using malformed_no_code [OF s m] by (intro otp_verify_no_match [OF s]) simp
    then show "otp_verify token ?s (window_of opts) now = Inr \<lparr> matched = False, delta = None \<rparr>
            \<and> verify (engine_verify now) token k oo = Inr (JBool False)"
      using assms(2) by (simp add: verify_def engine_verify_def valid_delta_no_match)
  qed
  show ?thesis
    using total bool malformed by blast
qed

theorem verify_never_throws_witness:
  "otp_verify ''12ab'' (bytes_of_string ''abcd1234'') (window_of empty_options) 59
     = Inr \<lparr> matched = False, delta = None \<rparr>
   \<and> verify (engine_verify 59) ''12ab'' ''abcd1234'' (Some empty_options) = Inr (JBool False)"
  using verify_never_throws [of "''abcd1234''" empty_options "Some empty_options" "''12ab''" 59]
  by simp

lemma find_append_cases:
  "find P (xs @ ys) = (case find P xs of None \<Rightarrow> find P ys | Some x \<Rightarrow> Some x)"
  by (induction xs) auto

text \<open>
  The search order: an offset \<open>i\<close> is tried before \<open>j\<close> when it is nearer to 0, or
  as far and in the past. The first match of the search is a match that no match
  precedes.
\<close>

lemma find_offsets_first:
  assumes "find P (offsets_upto w) = Some j"
  shows "\<bar>j\<bar> \<le> int w \<and> P j \<and> (\<forall>i. \<bar>i\<bar> < \<bar>j\<bar> \<or> (\<bar>i\<bar> = \<bar>j\<bar> \<and> i < j) \<longrightarrow> \<not> P i)"
  using assms
proof (induction w)
  case 0
  then show ?case by (auto split: if_splits)
next
  case (Suc w)
  show ?case
  proof (cases "find P (offsets_upto w)")
    case (Some x)
    then have "x = j"
      using Suc.prems by (simp add: find_append_cases)
    then show ?thesis
      using Suc.IH Some by auto
  next
    case None
    then have none: "\<forall>i. \<bar>i\<bar> \<le> int w \<longrightarrow> \<not> P i"
      by (simp add: find_None_iff set_offsets_upto)
    have "find P [- int (Suc w), int (Suc w)] = Some j"
      using Suc.prems None by (simp add: find_append_cases)
    then consider "j = - int (Suc w)" "P j"
      | "j = int (Suc w)" "P j" "\<not> P (- int (Suc w))"
      by (auto split: if_splits)
    then show ?thesis
    proof cases
      case 1
      have "\<forall>i. \<bar>i\<bar> < \<bar>j\<bar> \<or> (\<bar>i\<bar> = \<bar>j\<bar> \<and> i < j) \<longrightarrow> \<not> P i"
      proof (intro allI impI)
        fix i
        assume "\<bar>i\<bar> < \<bar>j\<bar> \<or> (\<bar>i\<bar> = \<bar>j\<bar> \<and> i < j)"
        then have "\<bar>i\<bar> \<le> int w"
          using 1(1) by auto
        then show "\<not> P i"
          using none by blast
      qed
      then show ?thesis
        using 1 by auto
    next
      case 2
      have "\<forall>i. \<bar>i\<bar> < \<bar>j\<bar> \<or> (\<bar>i\<bar> = \<bar>j\<bar> \<and> i < j) \<longrightarrow> \<not> P i"
      proof (intro allI impI)
        fix i
        assume "\<bar>i\<bar> < \<bar>j\<bar> \<or> (\<bar>i\<bar> = \<bar>j\<bar> \<and> i < j)"
        then have "\<bar>i\<bar> \<le> int w \<or> i = - int (Suc w)"
          using 2(1) by auto
        then show "\<not> P i"
          using none 2(3) by blast
      qed
      then show ?thesis
        using 2 by auto
    qed
  qed
qed

lemma otp_verify_first_match:
  assumes "secret \<noteq> []"
    and "\<bar>k\<bar> \<le> int (windowSize w)"
    and "generate secret (currentCounter w now + word_of_int k) 6 = Inr code"
  shows "\<exists>j. otp_verify code secret w now = Inr \<lparr> matched = True, delta = Some j \<rparr>
           \<and> \<bar>j\<bar> \<le> int (windowSize w)
           \<and> generate secret (currentCounter w now + word_of_int j) 6 = Inr code
           \<and> (\<forall>i. \<bar>i\<bar> < \<bar>j\<bar> \<or> (\<bar>i\<bar> = \<bar>j\<bar> \<and> i < j) \<longrightarrow>
                  generate secret (currentCounter w now + word_of_int i) 6 \<noteq> Inr code)"
proof -
  let ?P = "\<lambda>d. generate secret (currentCounter w now + word_of_int d) 6 = Inr code"
  have "k \<in> set (offsets_upto (windowSize w))"
    using assms(2) by (simp add: set_offsets_upto)
  then have "find ?P (offsets_upto (windowSize w)) \<noteq> None"
    using assms(3) by (auto simp: find_None_iff)
  then obtain j where j: "find ?P (offsets_upto (windowSize w)) = Some j"
    by blast
  have "otp_verify code secret w now = Inr \<lparr> matched = True, delta = Some j \<rparr>"
    using j by (simp add: otp_verify_def search_find [OF assms(1)])
  then show ?thesis
    using find_offsets_first [OF j] by blast
qed

text \<open>
  Claim C2, amended. Let the submitted code be the one generated for the counter
  \<open>currentCounter + k\<close>, for a non-empty secret. For \<open>|k| \<le> w\<close> the search reports
  a match, at the first offset of the window, in the order 0, -1, +1, -2, +2, ...,
  whose code equals the submitted one; this offset is \<open>k\<close> itself when no offset
  earlier in that order has the same code, and so always for \<open>k = 0\<close>. For every
  \<open>k\<close>, and so for \<open>|k| > w\<close>, the search reports no match exactly when no offset
  of the window has that code.
\<close>

theorem otp_verify_drift:
  assumes "secret \<noteq> []"
    and "generate secret (currentCounter w now + word_of_int k) 6 = Inr code"
  shows "(\<bar>k\<bar> \<le> int (windowSize w) \<longrightarrow>
            (\<exists>j. otp_verify code secret w now = Inr \<lparr> matched = True, delta = Some j \<rparr>
               \<and> \<bar>j\<bar> \<le> int (windowSize w)
               \<and> generate secret (currentCounter w now + word_of_int j) 6 = Inr code
               \<and> (\<forall>i. \<bar>i\<bar> < \<bar>j\<bar> \<or> (\<bar>i\<bar> = \<bar>j\<bar> \<and> i < j) \<longrightarrow>
                      generate secret (currentCounter w now + word_of_int i) 6 \<noteq> Inr code)))
       \<and> (\<bar>k\<bar> \<le> int (windowSize w)
            \<and> (\<forall>i. \<bar>i\<bar> < \<bar>k\<bar> \<or> (\<bar>i\<bar> = \<bar>k\<bar> \<and> i < k) \<longrightarrow>
                   generate secret (currentCounter w now + word_of_int i) 6 \<noteq> Inr code) \<longrightarrow>
            otp_verify code secret w now = Inr \<lparr> matched = True, delta = Some k \<rparr>)
       \<and> (k = 0 \<longrightarrow>
            otp_verify code secret w now = Inr \<lparr> matched = True, delta = Some 0 \<rparr>)
       \<and> (otp_verify code secret w now = Inr \<lparr> matched = False, delta = None \<rparr> \<longleftrightarrow>
            (\<forall>j. \<bar>j\<bar> \<le> int (windowSize w) \<longrightarrow>
                   generate secret (currentCounter w now + word_of_int j) 6 \<noteq> Inr code))"
proof (intro conjI impI)
  assume "\<bar>k\<bar> \<le> int (windowSize w)"
  then show "\<exists>j. otp_verify code secret w now = Inr \<lparr> matched = True, delta = Some j \<rparr>
               \<and> \<bar>j\<bar> \<le> int (windowSize w)
               \<and> generate secret (currentCounter w now + word_of_int j) 6 = Inr code
               \<and> (\<forall>i. \<bar>i\<bar> < \<bar>j\<bar> \<or> (\<bar>i\<bar> = \<bar>j\<bar> \<and> i < j) \<longrightarrow>
                      generate secret (currentCounter w now + word_of_int i) 6 \<noteq> Inr code)"
    using assms by (intro otp_verify_first_match)
next
  assume a: "\<bar>k\<bar> \<le> int (windowSize w)
            \<and> (\<forall>i. \<bar>i\<bar> < \<bar>k\<bar> \<or> (\<bar>i\<bar> = \<bar>k\<bar> \<and> i < k) \<longrightarrow>
                   generate secret (currentCounter w now + word_of_int i) 6 \<noteq> Inr code)"
  then obtain j where j: "otp_verify code secret w now = Inr \<lparr> matched = True, delta = Some j \<rparr>"
      "generate secret (currentCounter w now + word_of_int j) 6 = Inr code"
      "\<forall>i. \<bar>i\<bar> < \<bar>j\<bar> \<or> (\<bar>i\<bar> = \<bar>j\<bar> \<and> i < j) \<longrightarrow>
             generate secret (currentCounter w now + word_of_int i) 6 \<noteq> Inr code"
    using otp_verify_first_match [OF assms(1) _ assms(2)] by blast
  have "\<not> (\<bar>j\<bar> < \<bar>k\<bar> \<or> (\<bar>j\<bar> = \<bar>k\<bar> \<and> j < k))"
    using a j(2) by blast
  moreover have "\<not> (\<bar>k\<bar> < \<bar>j\<bar> \<or> (\<bar>k\<bar> = \<bar>j\<bar> \<and> k < j))"
    using j(3) assms(2) by blast
  ultimately have "j = k"
    by arith
  with j(1) show "otp_verify code secret w now = Inr \<lparr> matched = True, delta = Some k \<rparr>"
    by simp
next
  assume "k = 0"
  then show "otp_verify code secret w now = Inr \<lparr> matched = True, delta = Some 0 \<rparr>"
    using assms(2) by (intro otp_verify_current) simp
next
  let ?P = "\<lambda>d. generate secret (currentCounter w now + word_of_int d) 6 = Inr code"
  have "otp_verify code secret w now = Inr \<lparr> matched = False, delta = None \<rparr>
          \<longleftrightarrow> find ?P (offsets_upto (windowSize w)) = None"
    by (simp add: otp_verify_def search_find [OF assms(1)] split: option.split)
  then show "otp_verify code secret w now = Inr \<lparr> matched = False, delta = None \<rparr> \<longleftrightarrow>
            (\<forall>j. \<bar>j\<bar> \<le> int (windowSize w) \<longrightarrow>
                   generate secret (currentCounter w now + word_of_int j) 6 \<noteq> Inr code)"
    by (simp add: find_None_iff set_offsets_upto)
qed

lemma before_1: "\<bar>i\<bar> < \<bar>1::int\<bar> \<or> (\<bar>i\<bar> = \<bar>1\<bar> \<and> i < 1) \<longleftrightarrow> i = 0 \<or> i = -1"
  by arith

lemma counter_59: "currentCounter \<lparr> windowSize = n, timeStep = 30 \<rparr> 59 = 1"
  by (simp add: currentCounter_def)

section \<open>The engine on the spec's test vector\<close>

text \<open>
  The compression function on the four blocks of one HMAC-SHA1: the two key blocks,
  which every counter shares, the block of the counter, and the block of the inner
  digest.
\<close>

lemma upt_0_80: "[0..<80] = 0 # 1 # [2..<80]"
  by (simp add: upt_rec)

lemmas sha1_eval = sha1_block_def rotl32_def sha1_f_def sha1_k_def upt_0_80

lemmas hmac_eval =
  hmac_sha1_def hmac_key_def sha1_def sha1_pad_def be_bytes_def rfc_secret_def
  bytes_of_string_def sha1_init_def word_bytes_def replicate_numeral_Cons

lemma sha1_block_ipad:
  "sha1_block (1732584193, 4023233417, 2562383102, 271733878, 3285377520)
     [7, 4, 5, 2, 3, 0, 1, 14, 15, 6, 7, 4, 5, 2, 3, 0, 1, 14, 15, 6, 54, 54, 54, 54, 54,
     54, 54, 54, 54, 54, 54, 54, 54, 54, 54, 54, 54, 54, 54, 54, 54, 54, 54, 54, 54, 54,
     54, 54, 54, 54, 54, 54, 54, 54, 54, 54, 54, 54, 54, 54, 54, 54, 54, 54]
   = (3418885260, 4120502956, 3183003698, 3667247555, 4167577637)"
  by (simp add: sha1_eval)

lemma sha1_block_opad:
  "sha1_block (1732584193, 4023233417, 2562383102, 271733878, 3285377520)
     [109, 110, 111, 104, 105, 106, 107, 100, 101, 108, 109, 110, 111, 104, 105, 106, 107,
     100, 101, 108, 92, 92, 92, 92, 92, 92, 92, 92, 92, 92, 92, 92, 92, 92, 92, 92, 92, 92,
     92, 92, 92, 92, 92, 92, 92, 92, 92, 92, 92, 92, 92, 92, 92, 92, 92, 92, 92, 92, 92,
     92, 92, 92, 92, 92]
   = (2562571725, 1491106814, 2908544490, 985678603, 4262488101)"
  by (simp add: sha1_eval)

lemma sha1_block_inner_0:
  "sha1_block (3418885260, 4120502956, 3183003698, 3667247555, 4167577637)
     [0, 0, 0, 0, 0, 0, 0, 0, 128, 0, 0, 0, 0, 0, 0, 0, 0, 0, 0, 0, 0, 0, 0, 0, 0, 0, 0, 0,
     0, 0, 0, 0, 0, 0, 0, 0, 0, 0, 0, 0, 0, 0, 0, 0, 0, 0, 0, 0, 0, 0, 0, 0, 0, 0, 0, 0, 0,
     0, 0, 0, 0, 0, 2, 64]
   = (143776190, 163256007, 3362926067, 1759011664, 1719552414)"
  by (simp add: sha1_eval)

lemma sha1_block_outer_0:
  "sha1_block (2562571725, 1491106814, 2908544490, 985678603, 4262488101)
     [8, 145, 217, 190, 9, 187, 22, 199, 200, 114, 45, 243, 104, 216, 99, 80, 102, 126, 73,
     158, 128, 0, 0, 0, 0, 0, 0, 0, 0, 0, 0, 0, 0, 0, 0, 0, 0, 0, 0, 0, 0, 0, 0, 0, 0, 0,
     0, 0, 0, 0, 0, 0, 0, 0, 0, 0, 0, 0, 0, 0, 0, 0, 2, 160]
   = (3432238872, 1351455891, 1281668701, 2343003775, 3083723952)"
  by (simp add: sha1_eval)

lemma hmac_sha1_counter_0:
  "hmac_sha1 rfc_secret (be_bytes 0)
   = [204, 147, 207, 24, 80, 141, 148, 147, 76, 100, 182, 93, 139, 167, 102, 127, 183,
      205, 228, 176]"
  by (simp add: hmac_eval sha1_block_ipad sha1_block_opad sha1_block_inner_0 sha1_block_outer_0)

lemma sha1_block_inner_1:
  "sha1_block (3418885260, 4120502956, 3183003698, 3667247555, 4167577637)
     [0, 0, 0, 0, 0, 0, 0, 1, 128, 0, 0, 0, 0, 0, 0, 0, 0, 0, 0, 0, 0, 0, 0, 0, 0, 0, 0, 0,
     0, 0, 0, 0, 0, 0, 0, 0, 0, 0, 0, 0, 0, 0, 0, 0, 0, 0, 0, 0, 0, 0, 0, 0, 0, 0, 0, 0, 0,
     0, 0, 0, 0, 0, 2, 64]
   = (2923006674, 3845772892, 1570953884, 2321626177, 2537110156)"
  by (simp add: sha1_eval)

lemma sha1_block_outer_1:
  "sha1_block (2562571725, 1491106814, 2908544490, 985678603, 4262488101)
     [174, 57, 138, 210, 229, 57, 214, 92, 93, 162, 218, 156, 138, 97, 52, 65, 151, 57, 58,
     140, 128, 0, 0, 0, 0, 0, 0, 0, 0, 0, 0, 0, 0, 0, 0, 0, 0, 0, 0, 0, 0, 0, 0, 0, 0, 0,
     0, 0, 0, 0, 0, 0, 0, 0, 0, 0, 0, 0, 0, 0, 0, 0, 2, 160]
   = (1973717529, 3570131200, 1682868929, 964618868, 2049782699)"
  by (simp add: sha1_eval)

lemma hmac_sha1_counter_1:
  "hmac_sha1 rfc_secret (be_bytes 1)
   = [117, 164, 138, 25, 212, 203, 225, 0, 100, 78, 138, 193, 57, 126, 234, 116, 122, 45,
      51, 171]"
  by (simp add: hmac_eval sha1_block_ipad sha1_block_opad sha1_block_inner_1 sha1_block_outer_1)

lemma sha1_block_inner_2:
  "sha1_block (3418885260, 4120502956, 3183003698, 3667247555, 4167577637)
     [0, 0, 0, 0, 0, 0, 0, 2, 128, 0, 0, 0, 0, 0, 0, 0, 0, 0, 0, 0, 0, 0, 0, 0, 0, 0, 0, 0,
     0, 0, 0, 0, 0, 0, 0, 0, 0, 0, 0, 0, 0, 0, 0, 0, 0, 0, 0, 0, 0, 0, 0, 0, 0, 0, 0, 0, 0,
     0, 0, 0, 0, 0, 2, 64]
   = (3724809047, 4239391121, 2203018062, 1563414845, 2165924875)"
  by (simp add: sha1_eval)

lemma sha1_block_outer_2:
  "sha1_block (2562571725, 1491106814, 2908544490, 985678603, 4262488101)
     [222, 4, 19, 87, 252, 175, 249, 145, 131, 79, 99, 78, 93, 47, 209, 61, 129, 25, 100,
     11, 128, 0, 0, 0, 0, 0, 0, 0, 0, 0, 0, 0, 0, 0, 0, 0, 0, 0, 0, 0, 0, 0, 0, 0, 0, 0, 0,
     0, 0, 0, 0, 0, 0, 0, 0, 0, 0, 0, 0, 0, 0, 0, 2, 160]
   = (195868666, 137359152, 2015498643, 2344732135, 68616004)"
  by (simp add: sha1_eval)

lemma hmac_sha1_counter_2:
  "hmac_sha1 rfc_secret (be_bytes 2)
   = [11, 172, 183, 250, 8, 47, 239, 48, 120, 34, 17, 147, 139, 193, 197, 231, 4, 22, 255,
      68]"
  by (simp add: hmac_eval sha1_block_ipad sha1_block_opad sha1_block_inner_2 sha1_block_outer_2)

lemma sha1_block_inner_463662:
  "sha1_block (3418885260, 4120502956, 3183003698, 3667247555, 4167577637)
     [0, 0, 0, 0, 0, 7, 19, 46, 128, 0, 0, 0, 0, 0, 0, 0, 0, 0, 0, 0, 0, 0, 0, 0, 0, 0, 0,
     0, 0, 0, 0, 0, 0, 0, 0, 0, 0, 0, 0, 0, 0, 0, 0, 0, 0, 0, 0, 0, 0, 0, 0, 0, 0, 0, 0, 0,
     0, 0, 0, 0, 0, 0, 2, 64]
   = (2308722515, 346148159, 2273911172, 3983365356, 2415283534)"
  by (simp add: sha1_eval)

lemma sha1_block_outer_463662:
  "sha1_block (2562571725, 1491106814, 2908544490, 985678603, 4262488101)
     [137, 156, 79, 83, 20, 161, 205, 63, 135, 137, 33, 132, 237, 109, 84, 236, 143, 246,
     77, 78, 128, 0, 0, 0, 0, 0, 0, 0, 0, 0, 0, 0, 0, 0, 0, 0, 0, 0, 0, 0, 0, 0, 0, 0, 0,
     0, 0, 0, 0, 0, 0, 0, 0, 0, 0, 0, 0, 0, 0, 0, 0, 0, 2, 160]
   = (1546102649, 2865194451, 3112963129, 4017206251, 2720192705)"
  by (simp add: sha1_eval)

lemma hmac_sha1_counter_463662:
  "hmac_sha1 rfc_secret (be_bytes 463662)
   = [92, 39, 167, 121, 170, 199, 101, 211, 185, 140, 12, 57, 239, 113, 179, 235, 162, 34,
      216, 193]"
  by (simp add: hmac_eval sha1_block_ipad sha1_block_opad sha1_block_inner_463662 sha1_block_outer_463662)

lemma rfc_secret_nonempty: "rfc_secret \<noteq> []"
  by (simp add: rfc_secret_def bytes_of_string_def)

lemma decimal_numeral:
  "decimal (numeral n) v
     = decimal (pred_numeral n) (v div 10) @ [''0123456789'' ! nat (v mod 10)]"
  by (simp add: numeral_eq_Suc)

lemmas generate_eval = generate_def dynamic_truncate_def decimal_numeral rfc_secret_nonempty

lemma generate_rfc_0: "generate rfc_secret 0 6 = Inr ''755224''"
  by (simp add: generate_eval hmac_sha1_counter_0)

lemma generate_rfc_1: "generate rfc_secret 1 6 = Inr ''287082''"
  by (simp add: generate_eval hmac_sha1_counter_1)

lemma generate_rfc_2: "generate rfc_secret 2 6 = Inr ''359152''"
  by (simp add: generate_eval hmac_sha1_counter_2)

lemma generate_rfc_463662: "generate rfc_secret 463662 6 = Inr ''287082''"
  by (simp add: generate_eval hmac_sha1_counter_463662)

text \<open>
  The spec's concrete vector: at Unix time 59 with a step of 30 the counter is 1, the
  8-digit code is \<open>94287082\<close> and the 6-digit code \<open>287082\<close>.
\<close>

lemma generate_rfc_vector: "generate rfc_secret 1 8 = Inr ''94287082''"
  by (simp add: generate_eval hmac_sha1_counter_1)

theorem otp_verify_drift_witness:
  "otp_verify ''359152'' rfc_secret \<lparr> windowSize = 1, timeStep = 30 \<rparr> 59
     = Inr \<lparr> matched = True, delta = Some 1 \<rparr>
   \<and> otp_verify ''359152'' rfc_secret \<lparr> windowSize = 0, timeStep = 30 \<rparr> 59
     = Inr \<lparr> matched = False, delta = None \<rparr>
   \<and> otp_verify ''287082'' rfc_secret \<lparr> windowSize = 1, timeStep = 30 \<rparr> 59
     = Inr \<lparr> matched = True, delta = Some 0 \<rparr>"
proof -
  let ?w1 = "\<lparr> windowSize = 1, timeStep = 30 \<rparr>"
  let ?w0 = "\<lparr> windowSize = 0, timeStep = 30 \<rparr>"
  have k1: "generate rfc_secret (currentCounter ?w1 59 + word_of_int 1) 6 = Inr ''359152''"
    by (simp add: counter_59 generate_rfc_2)
  have k0: "generate rfc_secret (currentCounter ?w0 59 + word_of_int 1) 6 = Inr ''359152''"
    by (simp add: counter_59 generate_rfc_2)
  have z: "generate rfc_secret (currentCounter ?w1 59 + word_of_int 0) 6 = Inr ''287082''"
    by (simp add: counter_59 generate_rfc_1)
  have u1: "\<bar>1\<bar> \<le> int (windowSize ?w1)
      \<and> (\<forall>i. \<bar>i\<bar> < \<bar>1\<bar> \<or> (\<bar>i\<bar> = \<bar>1\<bar> \<and> i < 1) \<longrightarrow>
             generate rfc_secret (currentCounter ?w1 59 + word_of_int i) 6 \<noteq> Inr ''359152'')"
    unfolding before_1 by (auto simp: counter_59 generate_rfc_0 generate_rfc_1)
  have u0: "\<forall>j. \<bar>j\<bar> \<le> int (windowSize ?w0) \<longrightarrow>
             generate rfc_secret (currentCounter ?w0 59 + word_of_int j) 6 \<noteq> Inr ''359152''"
    by (simp add: counter_59 generate_rfc_1)
  show ?thesis
    using otp_verify_drift [OF rfc_secret_nonempty k1] u1
      otp_verify_drift [OF rfc_secret_nonempty k0] u0
      otp_verify_drift [OF rfc_secret_nonempty z]
    by blast
qed

text \<open>
  Claim C2, as stated, at the secret \<open>12345678901234567890\<close>, the time 59 (counter 1)
  and \<open>k = 463661\<close>: the code generated for the counter 463662 is \<open>287082\<close>, the
  code of the counter 1 itself. With \<open>w = 0\<close>, so \<open>|k| > w\<close>, the search reports a
  match; with \<open>w = 463661\<close>, so \<open>|k| \<le> w\<close>, it reports the offset 0, not \<open>k\<close>.
\<close>

theorem otp_verify_collision_counterexample:
  "generate rfc_secret
     (currentCounter \<lparr> windowSize = 0, timeStep = 30 \<rparr> 59 + word_of_int 463661) 6
     = Inr ''287082''
   \<and> otp_verify ''287082'' rfc_secret \<lparr> windowSize = 0, timeStep = 30 \<rparr> 59
     = Inr \<lparr> matched = True, delta = Some 0 \<rparr>
   \<and> otp_verify ''287082'' rfc_secret \<lparr> windowSize = 0, timeStep = 30 \<rparr> 59
     \<noteq> Inr \<lparr> matched = False, delta = None \<rparr>
   \<and> otp_verify ''287082'' rfc_secret \<lparr> windowSize = 463661, timeStep = 30 \<rparr> 59
     = Inr \<lparr> matched = True, delta = Some 0 \<rparr>
   \<and> otp_verify ''287082'' rfc_secret \<lparr> windowSize = 463661, timeStep = 30 \<rparr> 59
     \<noteq> Inr \<lparr> matched = True, delta = Some 463661 \<rparr>"
  by (simp add: counter_59 generate_rfc_1 generate_rfc_463662 otp_verify_current)

end
